theory Spec2Isabelle
  imports Main
begin

section \<open>Data model of \<^verbatim>\<open>main.go\<close>\<close>

text \<open>
  The Go structs \<^verbatim>\<open>API\<close> and \<^verbatim>\<open>Service\<close> (lines 17-31). Go strings are byte
  sequences, as HOL's \<open>string\<close> is. A value of type \<^verbatim>\<open>*API\<close> or \<^verbatim>\<open>*Service\<close> is a
  pointer and may be nil: it is an \<open>option\<close>, \<open>None\<close> being nil. A Go map value may
  be nil as well (the zero value of \<^verbatim>\<open>map[string]*API\<close>, which is what JSON without
  an \<^verbatim>\<open>apis\<close> member decodes to): reading a nil map finds nothing, writing to it is a
  run-time panic. So \<^verbatim>\<open>APIs\<close> is an optional map, whose entries are optional records
  (a JSON \<^verbatim>\<open>null\<close> entry is a nil \<^verbatim>\<open>*API\<close>).
\<close>

record API =
  api_Name :: string
  api_Service :: string
  api_Protocol :: string
  api_HTTPMethod :: string
  api_Host :: string
  api_Path :: string

record Service =
  svc_Name :: string
  svc_APIs :: "(string \<rightharpoonup> API option) option"

text \<open>
  \<^verbatim>\<open>cache\<close> (lines 44-47). The mutex is not part of the sequential model: every
  operation below is what one call does between taking and releasing the lock. The
  store never holds a nil \<^verbatim>\<open>*Service\<close> (\<^verbatim>\<open>CreateService\<close> is the only writer of
  the store and refuses nil), so its entries are records.

  Records are held by value. In the program every record reaching the registry is
  freshly allocated by its HTTP handler (\<^verbatim>\<open>var service Service\<close>, \<^verbatim>\<open>var api API\<close>,
  filled by \<^verbatim>\<open>json.Unmarshal\<close>) and never touched again by the handler, so no two
  entries share a record or a map.
\<close>

record cache =
  store :: "string \<rightharpoonup> Service"

definition NewCacheDiscovery :: cache where
  "NewCacheDiscovery = \<lparr>store = Map.empty\<rparr>"

text \<open>
  The values built by the \<^verbatim>\<open>fmt.Errorf\<close> calls of the registry, one constructor per
  call site, and \<open>Error\<close>, the text of each (the verb \<^verbatim>\<open>%v\<close> prints a string as it
  is).
\<close>

datatype error =
    ServiceEmpty
  | ServiceAlreadyExist string
  | ApiEmpty
  | ServiceNameEmpty
  | ServiceNotExist string
  | ApiAlreadyExist string string

fun Error :: "error \<Rightarrow> string" where
  "Error ServiceEmpty = ''service can not be empty''"
| "Error (ServiceAlreadyExist n) = ''service: '' @ n @ '' already exist''"
| "Error ApiEmpty = ''api can not be empty''"
| "Error ServiceNameEmpty = ''service name can not be empty''"
| "Error (ServiceNotExist n) = ''service: '' @ n @ '' not exist''"
| "Error (ApiAlreadyExist s a) = ''service: '' @ s @ '', api: '' @ a @ '' already exist''"

text \<open>
  The program has no error types; the specification sorts the errors into three kinds
  by what they report. \<open>kind\<close> follows the specification's taxonomy: empty identifying
  fields are validation errors, duplicates are conflicts, a missing service is a
  not-found error.
\<close>

datatype error_kind = ValidationError | ConflictError | NotFoundError

fun kind :: "error \<Rightarrow> error_kind" where
  "kind ServiceEmpty = ValidationError"
| "kind ApiEmpty = ValidationError"
| "kind ServiceNameEmpty = ValidationError"
| "kind (ServiceAlreadyExist n) = ConflictError"
| "kind (ApiAlreadyExist s a) = ConflictError"
| "kind (ServiceNotExist n) = NotFoundError"

text \<open>
  Run-time panics: reading a field through a nil pointer, and assigning to an entry of
  a nil map. What a call does is then one of: return nil (\<open>Success\<close>), return an error,
  or panic. A panic unwinds through the deferred \<^verbatim>\<open>Unlock\<close>, so the registry stays
  usable, in the state it had when the panic happened.
\<close>

datatype fault = NilDereference | NilMapAssignment

datatype outcome = Success | Failed error | Panicked fault

section \<open>Go maps\<close>

text \<open>\<^verbatim>\<open>v, exist := m[k]\<close>: a nil map has no entries.\<close>

definition map_index :: "('k \<rightharpoonup> 'v) option \<Rightarrow> 'k \<Rightarrow> 'v option" where
  "map_index m k = (case m of None \<Rightarrow> None | Some f \<Rightarrow> f k)"

text \<open>\<^verbatim>\<open>m[k] = v\<close>: panics on a nil map (\<open>Inl\<close>), updates the map otherwise.\<close>

definition map_assign :: "('k \<rightharpoonup> 'v) option \<Rightarrow> 'k \<Rightarrow> 'v \<Rightarrow> fault + ('k \<rightharpoonup> 'v) option" where
  "map_assign m k v = (case m of None \<Rightarrow> Inl NilMapAssignment | Some f \<Rightarrow> Inr (Some (f(k \<mapsto> v))))"

section \<open>The registry\<close>

text \<open>\<^verbatim>\<open>cache.GetService\<close> (lines 55-63).\<close>

definition GetService :: "string \<Rightarrow> cache \<Rightarrow> error + Service" where
  "GetService serviceName c =
     (case store c serviceName of
        None \<Rightarrow> Inl (ServiceNotExist serviceName)
      | Some service \<Rightarrow> Inr service)"

text \<open>
  \<^verbatim>\<open>cache.CreateService\<close> (lines 66-80). The result is what the call does and the
  registry after it.
\<close>

definition CreateService :: "Service option \<Rightarrow> cache \<Rightarrow> outcome \<times> cache" where
  "CreateService service c =
     (case service of
        None \<Rightarrow> (Failed ServiceEmpty, c)
      | Some s \<Rightarrow>
          if svc_Name s = [] then (Failed ServiceEmpty, c)
          else if store c (svc_Name s) \<noteq> None
          then (Failed (ServiceAlreadyExist (svc_Name s)), c)
          else (Success, c\<lparr>store := (store c)(svc_Name s \<mapsto> s)\<rparr>))"

text \<open>
  \<^verbatim>\<open>cache.CreateAPI\<close> (lines 83-105). At line 94 \<^verbatim>\<open>service\<close> is the entry found, or
  nil when there is none. The error of line 96 is built from \<^verbatim>\<open>service.Name\<close>, a
  field read through that pointer. Line 98 reads the service's map, line 103 writes
  the new entry into it; the entry of the store is the same \<^verbatim>\<open>*Service\<close> as before,
  whose map has changed.
\<close>

definition CreateAPI :: "API option \<Rightarrow> cache \<Rightarrow> outcome \<times> cache" where
  "CreateAPI api c =
     (case api of
        None \<Rightarrow> (Failed ApiEmpty, c)
      | Some a \<Rightarrow>
          if api_Name a = [] then (Failed ApiEmpty, c)
          else let serviceName = api_Service a in
            if serviceName = [] then (Failed ServiceNameEmpty, c)
            else let service = store c serviceName; exist = (service \<noteq> None) in
              if \<not> exist then
                (case service of
                   None \<Rightarrow> (Panicked NilDereference, c)
                 | Some s \<Rightarrow> (Failed (ServiceNotExist (svc_Name s)), c))
              else
                (case service of
                   None \<Rightarrow> (Panicked NilDereference, c)
                 | Some s \<Rightarrow>
                     if map_index (svc_APIs s) (api_Name a) \<noteq> None
                     then (Failed (ApiAlreadyExist serviceName (api_Name a)), c)
                     else
                       (case map_assign (svc_APIs s) (api_Name a) (Some a) of
                          Inl f \<Rightarrow> (Panicked f, c)
                        | Inr m \<Rightarrow>
                            (Success, c\<lparr>store := (store c)(serviceName \<mapsto> s\<lparr>svc_APIs := m\<rparr>)\<rparr>))))"

text \<open>
  Sequences of calls on the registry: \<open>run ops c\<close> is the registry after the calls
  \<open>ops\<close>, in order, starting from \<open>c\<close>. The registry states the program can reach are
  \<open>run ops NewCacheDiscovery\<close>.
\<close>

datatype call = CallCreateService "Service option" | CallCreateAPI "API option"

fun perform :: "call \<Rightarrow> cache \<Rightarrow> outcome \<times> cache" where
  "perform (CallCreateService s) c = CreateService s c"
| "perform (CallCreateAPI a) c = CreateAPI a c"

fun run :: "call list \<Rightarrow> cache \<Rightarrow> cache" where
  "run [] c = c"
| "run (x # xs) c = run xs (snd (perform x c))"

section \<open>The director\<close>

text \<open>
  The parts of \<^verbatim>\<open>http.Request\<close> and \<^verbatim>\<open>url.URL\<close> that the director reads or writes,
  and the query string and body, which it is said to leave alone.
\<close>

record URL =
  Scheme :: string
  Host :: string
  Path :: string
  RawQuery :: string

record Request =
  Method :: string
  URL :: URL
  Body :: string

text \<open>
  \<^verbatim>\<open>strings.Split(s, sep)\<close> for a separator of one byte: the pieces of \<open>s\<close> between
  the occurrences of \<open>sep\<close>, one more piece than there are occurrences; the empty
  string gives one empty piece.
\<close>

fun Split :: "string \<Rightarrow> char \<Rightarrow> string list" where
  "Split [] sep = [[]]"
| "Split (x # xs) sep =
     (if x = sep then [] # Split xs sep
      else (case Split xs sep of
              [] \<Rightarrow> [[x]]
            | w # ws \<Rightarrow> (x # w) # ws))"

text \<open>
  \<^verbatim>\<open>APIGateway.director\<close> (lines 155-188), the \<^verbatim>\<open>Director\<close> that \<^verbatim>\<open>ServeHTTP\<close> gives
  to the reverse proxy. The result is what the call does (it returns, or panics when
  the entry found is a nil \<^verbatim>\<open>*API\<close>, whose \<^verbatim>\<open>HTTPMethod\<close> line 181 reads), the
  request after it, and the lines it has given to \<^verbatim>\<open>log.Printf\<close>, formatted.
  (\<^verbatim>\<open>NewAPIGateWay\<close> builds a closure of nearly the same text, without the method
  test, and keeps it in \<^verbatim>\<open>directorFunc\<close>, which nothing calls.)
\<close>

definition director :: "cache \<Rightarrow> Request \<Rightarrow> outcome \<times> Request \<times> string list" where
  "director c req =
     (let reqPath = Path (URL req) in
      if reqPath = [] then (Success, req, [])
      else let pathArray = Split reqPath CHR ''/'' in
        if length pathArray \<noteq> 3 then (Success, req, [])
        else
          let serviceName = pathArray ! 1;
              apiName = pathArray ! 2;
              log1 = [''request service name: '' @ serviceName @ '', api name: '' @ apiName]
          in
          (case GetService serviceName c of
             Inl err \<Rightarrow>
               (Success, req,
                log1 @ [''use discovery to get service failed: '' @ Error err @ [CHR 0x0A]])
           | Inr service \<Rightarrow>
               (case map_index (svc_APIs service) apiName of
                  None \<Rightarrow>
                    (Success, req,
                     log1 @ [''service: '' @ serviceName @ '' not has api: '' @ apiName @ [CHR 0x0A]])
                | Some None \<Rightarrow> (Panicked NilDereference, req, log1)
                | Some (Some api) \<Rightarrow>
                    (Success,
                     req\<lparr>URL := (URL req)\<lparr>Scheme := api_Protocol api,
                                           Host := api_Host api,
                                           Path := ''/'' @ api_Path api\<rparr>\<rparr>,
                     log1 @ (if Method req \<noteq> api_HTTPMethod api
                             then [''method: '' @ Method req @ '' unsupported, should be: ''
                                   @ api_HTTPMethod api]
                             else [])))))"

text \<open>
  What the director looks up at lines 170 and 176: the service by name, then the entry
  of its map under the API name. \<open>None\<close>: no such service or no such entry;
  \<open>Some None\<close>: an entry that is a nil pointer.
\<close>

definition find_api :: "string \<Rightarrow> string \<Rightarrow> cache \<Rightarrow> API option option" where
  "find_api s a c =
     (case GetService s c of Inl err \<Rightarrow> None | Inr service \<Rightarrow> map_index (svc_APIs service) a)"

section \<open>Example data\<close>

text \<open>
  The API of the README and of the specification's examples, its service as the body
  \<^verbatim>\<open>{"name": "userService", "apis": {}}\<close> decodes, the registry after registering
  both, and two requests to the proxy.
\<close>

definition example_api :: API where
  "example_api =
     \<lparr>api_Name = ''createUser'', api_Service = ''userService'', api_Protocol = ''http'',
      api_HTTPMethod = ''post'', api_Host = ''198.15.26.10:8080'',
      api_Path = ''user/createUser''\<rparr>"

definition example_service :: Service where
  "example_service = \<lparr>svc_Name = ''userService'', svc_APIs = Some Map.empty\<rparr>"

definition example_registry :: cache where
  "example_registry =
     run [CallCreateService (Some example_service), CallCreateAPI (Some example_api)]
       NewCacheDiscovery"

definition example_request :: Request where
  "example_request =
     \<lparr>Method = ''POST'',
      URL = \<lparr>Scheme = [], Host = [], Path = ''/userService/createUser'', RawQuery = ''id=7''\<rparr>,
      Body = ''{}''\<rparr>"

definition unknown_request :: Request where
  "unknown_request =
     \<lparr>Method = ''GET'',
      URL = \<lparr>Scheme = [], Host = [], Path = ''/unknown/foo'', RawQuery = []\<rparr>,
      Body = []\<rparr>"

text \<open>
  A service whose initial mapping has an entry under the empty name, as the body
  \<^verbatim>\<open>{"name": "s", "apis": {"": {"service": "s", "protocol": "http", "host": "h", "path": "p"}}}\<close>
  decodes, the registry holding it, and a request for \<^verbatim>\<open>/s/\<close>.
\<close>

definition nameless_api :: API where
  "nameless_api =
     \<lparr>api_Name = [], api_Service = ''s'', api_Protocol = ''http'', api_HTTPMethod = [],
      api_Host = ''h'', api_Path = ''p''\<rparr>"

definition nameless_service :: Service where
  "nameless_service = \<lparr>svc_Name = ''s'', svc_APIs = Some (Map.empty([] \<mapsto> Some nameless_api))\<rparr>"

definition nameless_registry :: cache where
  "nameless_registry = run [CallCreateService (Some nameless_service)] NewCacheDiscovery"

definition nameless_request :: Request where
  "nameless_request =
     \<lparr>Method = ''GET'',
      URL = \<lparr>Scheme = [], Host = [], Path = ''/s/'', RawQuery = []\<rparr>,
      Body = []\<rparr>"

text \<open>
  A service whose initial mapping has a nil entry, as the body
  \<^verbatim>\<open>{"name": "s", "apis": {"a": null}}\<close> decodes, the registry holding it, and a
  request for \<^verbatim>\<open>/s/a\<close>.
\<close>

definition null_entry_service :: Service where
  "null_entry_service = \<lparr>svc_Name = ''s'', svc_APIs = Some (Map.empty(''a'' \<mapsto> None))\<rparr>"

definition null_entry_registry :: cache where
  "null_entry_registry = run [CallCreateService (Some null_entry_service)] NewCacheDiscovery"

definition null_entry_request :: Request where
  "null_entry_request =
     \<lparr>Method = ''GET'',
      URL = \<lparr>Scheme = [], Host = [], Path = ''/s/a'', RawQuery = []\<rparr>,
      Body = []\<rparr>"

section \<open>Splitting a path\<close>

lemma Split_not_Nil: "Split s sep \<noteq> []"
  by (induction s) (auto split: list.splits)

lemma Split_no_sep: "sep \<notin> set s \<Longrightarrow> Split s sep = [s]"
  by (induction s) auto

lemma Split_append_sep: "sep \<notin> set s \<Longrightarrow> Split (s @ sep # t) sep = s # Split t sep"
  by (induction s) auto

lemma length_Split: "length (Split s sep) = Suc (count_list s sep)"
  by (induction s) (auto split: list.splits simp: Split_not_Nil)

lemma Split_three:
  "sep \<notin> set x \<Longrightarrow> sep \<notin> set s \<Longrightarrow> sep \<notin> set a \<Longrightarrow>
   Split (x @ sep # s @ sep # a) sep = [x, s, a]"
  by (simp add: Split_append_sep Split_no_sep)

lemma count_list_decomp:
  "count_list p sep = Suc n \<Longrightarrow> \<exists>x t. p = x @ sep # t \<and> sep \<notin> set x \<and> count_list t sep = n"
proof (induction p)
  case Nil
  then show ?case by simp
next
  case (Cons y ys)
  show ?case
  proof (cases "y = sep")
    case True
    with Cons.prems have "y # ys = [] @ sep # ys \<and> sep \<notin> set [] \<and> count_list ys sep = n"
      by simp
    then show ?thesis by blast
  next
    case False
    with Cons.prems have "count_list ys sep = Suc n" by simp
    from Cons.IH [OF this] obtain x t
      where "ys = x @ sep # t" "sep \<notin> set x" "count_list t sep = n" by blast
    with False have "y # ys = (y # x) @ sep # t \<and> sep \<notin> set (y # x) \<and> count_list t sep = n"
      by auto
    then show ?thesis by blast
  qed
qed

lemma count_list_zero: "count_list p sep = 0 \<Longrightarrow> sep \<notin> set p"
  by (induction p) (auto split: if_splits)

lemma count_list_two:
  assumes "count_list p sep = 2"
  shows "\<exists>x s a. p = x @ sep # s @ sep # a \<and> sep \<notin> set x \<and> sep \<notin> set s \<and> sep \<notin> set a"
proof -
  from assms have "count_list p sep = Suc (Suc 0)" by simp
  from count_list_decomp [OF this] obtain x t
    where 1: "p = x @ sep # t" "sep \<notin> set x" "count_list t sep = Suc 0" by blast
  from count_list_decomp [OF 1(3)] obtain s a
    where 2: "t = s @ sep # a" "sep \<notin> set s" "count_list a sep = 0" by blast
  from 2(3) have "sep \<notin> set a" by (rule count_list_zero)
  with 1 2 show ?thesis by blast
qed

section \<open>What one call does to the registry\<close>

lemma CreateService_cases:
  "CreateService service c = (out, c') \<Longrightarrow>
   c' = c \<and> out \<noteq> Success \<or>
   (\<exists>s. service = Some s \<and> svc_Name s \<noteq> [] \<and> store c (svc_Name s) = None \<and>
        out = Success \<and> c' = c\<lparr>store := (store c)(svc_Name s \<mapsto> s)\<rparr>)"
  by (auto simp: CreateService_def split: option.splits if_splits)

lemma CreateAPI_cases:
  "CreateAPI api c = (out, c') \<Longrightarrow>
   c' = c \<and> out \<noteq> Success \<or>
   (\<exists>a s m. api = Some a \<and> api_Name a \<noteq> [] \<and> api_Service a \<noteq> [] \<and>
        store c (api_Service a) = Some s \<and> svc_APIs s = Some m \<and> m (api_Name a) = None \<and>
        out = Success \<and>
        c' = c\<lparr>store := (store c)(api_Service a \<mapsto> s\<lparr>svc_APIs := Some (m(api_Name a \<mapsto> Some a))\<rparr>)\<rparr>)"
  by (auto simp: CreateAPI_def Let_def map_index_def map_assign_def
      split: option.splits if_splits sum.splits)

lemma perform_cases:
  "perform x c = (out, c') \<Longrightarrow>
   c' = c \<and> out \<noteq> Success \<or>
   (\<exists>s. svc_Name s \<noteq> [] \<and> store c (svc_Name s) = None \<and>
        c' = c\<lparr>store := (store c)(svc_Name s \<mapsto> s)\<rparr>) \<or>
   (\<exists>a s m. api_Name a \<noteq> [] \<and> api_Service a \<noteq> [] \<and>
        store c (api_Service a) = Some s \<and> svc_APIs s = Some m \<and> m (api_Name a) = None \<and>
        c' = c\<lparr>store := (store c)(api_Service a \<mapsto> s\<lparr>svc_APIs := Some (m(api_Name a \<mapsto> Some a))\<rparr>)\<rparr>)"
  by (cases x) (auto dest!: CreateService_cases CreateAPI_cases)

text \<open>No call removes or replaces an entry of a service's map, or a service.\<close>

lemma perform_keeps_api:
  assumes "find_api s k c = Some v"
  shows "find_api s k (snd (perform x c)) = Some v"
proof -
  obtain out c' where p: "perform x c = (out, c')" by (cases "perform x c")
  from perform_cases [OF p] assms show ?thesis
    unfolding p
    by (auto simp: find_api_def GetService_def map_index_def split: option.splits if_splits)
qed

lemma run_keeps_api:
  "find_api s k c = Some v \<Longrightarrow> find_api s k (run ops c) = Some v"
  by (induction ops arbitrary: c) (simp_all add: perform_keeps_api)

lemma perform_keeps_service:
  assumes "store c n \<noteq> None"
  shows "store (snd (perform x c)) n \<noteq> None"
proof -
  obtain out c' where p: "perform x c = (out, c')" by (cases "perform x c")
  from perform_cases [OF p] assms show ?thesis
    unfolding p by auto
qed

lemma run_keeps_service:
  "store c n \<noteq> None \<Longrightarrow> store (run ops c) n \<noteq> None"
proof (induction ops arbitrary: c)
  case Nil
  then show ?case by simp
next
  case (Cons x xs)
  from Cons.IH [OF perform_keeps_service [OF Cons.prems]] show ?case by simp
qed

text \<open>Every service of a reachable registry is held under its own name, which is not empty.\<close>

lemma perform_own_name:
  assumes "\<forall>n s. store c n = Some s \<longrightarrow> svc_Name s = n \<and> n \<noteq> []"
  shows "\<forall>n s. store (snd (perform x c)) n = Some s \<longrightarrow> svc_Name s = n \<and> n \<noteq> []"
proof -
  obtain out c' where p: "perform x c = (out, c')" by (cases "perform x c")
  from perform_cases [OF p] assms show ?thesis
    unfolding p by (fastforce split: if_splits)
qed

lemma run_own_name:
  "\<forall>n s. store c n = Some s \<longrightarrow> svc_Name s = n \<and> n \<noteq> [] \<Longrightarrow>
   \<forall>n s. store (run ops c) n = Some s \<longrightarrow> svc_Name s = n \<and> n \<noteq> []"
proof (induction ops arbitrary: c)
  case Nil
  then show ?case by simp
next
  case (Cons x xs)
  from Cons.IH [OF perform_own_name [OF Cons.prems]] show ?case by simp
qed

lemma reachable_own_name:
  "store (run ops NewCacheDiscovery) n = Some s \<Longrightarrow> svc_Name s = n \<and> n \<noteq> []"
  using run_own_name [of NewCacheDiscovery ops] by (simp add: NewCacheDiscovery_def)

section \<open>What the director does on each path\<close>

lemma director_wrong_count:
  "count_list (Path (URL req)) CHR ''/'' \<noteq> 2 \<Longrightarrow> director c req = (Success, req, [])"
  by (simp add: director_def Let_def length_Split)

lemma director_three:
  assumes "Path (URL req) = x @ ''/'' @ s @ ''/'' @ a"
    and "CHR ''/'' \<notin> set x" and "CHR ''/'' \<notin> set s" and "CHR ''/'' \<notin> set a"
  shows "director c req =
     (case GetService s c of
        Inl err \<Rightarrow>
          (Success, req,
           [''request service name: '' @ s @ '', api name: '' @ a,
            ''use discovery to get service failed: '' @ Error err @ [CHR 0x0A]])
      | Inr service \<Rightarrow>
          (case map_index (svc_APIs service) a of
             None \<Rightarrow>
               (Success, req,
                [''request service name: '' @ s @ '', api name: '' @ a,
                 ''service: '' @ s @ '' not has api: '' @ a @ [CHR 0x0A]])
           | Some None \<Rightarrow>
               (Panicked NilDereference, req,
                [''request service name: '' @ s @ '', api name: '' @ a])
           | Some (Some api) \<Rightarrow>
               (Success,
                req\<lparr>URL := (URL req)\<lparr>Scheme := api_Protocol api, Host := api_Host api,
                                      Path := ''/'' @ api_Path api\<rparr>\<rparr>,
                [''request service name: '' @ s @ '', api name: '' @ a] @
                (if Method req \<noteq> api_HTTPMethod api
                 then [''method: '' @ Method req @ '' unsupported, should be: ''
                       @ api_HTTPMethod api]
                 else []))))"
proof -
  have sp: "Split (Path (URL req)) CHR ''/'' = [x, s, a]"
    using assms Split_three [of "CHR ''/''" x s a] by simp
  have ne: "Path (URL req) \<noteq> []"
    using assms(1) by simp
  show ?thesis
    unfolding director_def Let_def using ne
    by (simp add: sp split: sum.splits option.splits)
qed

section \<open>The example registries\<close>

lemma example_registry_store:
  "store example_registry =
     Map.empty(''userService'' \<mapsto>
       \<lparr>svc_Name = ''userService'',
        svc_APIs = Some (Map.empty(''createUser'' \<mapsto> Some example_api))\<rparr>)"
  by (simp add: example_registry_def example_service_def example_api_def NewCacheDiscovery_def
      CreateService_def CreateAPI_def map_index_def map_assign_def Let_def)

lemma nameless_registry_store:
  "store nameless_registry = Map.empty(''s'' \<mapsto> nameless_service)"
  by (simp add: nameless_registry_def nameless_service_def NewCacheDiscovery_def
      CreateService_def)

section \<open>The registry's create calls\<close>

text \<open>
  C1. For an API whose declared owning service is not in the registry, \<^verbatim>\<open>CreateAPI\<close>
  is to return a not-found error and leave the registry unchanged. The registry is
  unchanged, but no error is returned: at the README's API and the empty registry the
  call panics on \<^verbatim>\<open>service.Name\<close> (line 96), \<^verbatim>\<open>service\<close> being nil there.
\<close>

theorem CreateAPI_missing_service_panics:
  "CreateAPI (Some example_api) NewCacheDiscovery = (Panicked NilDereference, NewCacheDiscovery)"
  by (simp add: CreateAPI_def example_api_def NewCacheDiscovery_def)

text \<open>The same on every registry and every API that passes the two emptiness checks.\<close>

lemma CreateAPI_missing_service:
  "api_Name a \<noteq> [] \<Longrightarrow> api_Service a \<noteq> [] \<Longrightarrow> store c (api_Service a) = None \<Longrightarrow>
   CreateAPI (Some a) c = (Panicked NilDereference, c)"
  by (simp add: CreateAPI_def)

lemma CreateAPI_never_not_found: "kind e = NotFoundError \<Longrightarrow> fst (CreateAPI api c) \<noteq> Failed e"
  by (cases e)
    (auto simp: CreateAPI_def Let_def map_assign_def split: option.splits sum.splits)

text \<open>
  C9. A create call with an empty identifying field (a nil service or one with an
  empty name; a nil API, or one with an empty name or an empty owning-service name)
  returns a validation error and leaves the registry as it was.
\<close>

theorem create_validation:
  "((case service of None \<Rightarrow> True | Some s \<Rightarrow> svc_Name s = []) \<longrightarrow>
      (\<exists>e. CreateService service c = (Failed e, c) \<and> kind e = ValidationError)) \<and>
   ((case api of None \<Rightarrow> True | Some a \<Rightarrow> api_Name a = [] \<or> api_Service a = []) \<longrightarrow>
      (\<exists>e. CreateAPI api c = (Failed e, c) \<and> kind e = ValidationError))"
  by (auto simp: CreateService_def CreateAPI_def Let_def split: option.splits)

theorem create_validation_witness:
  "(case Some (example_service\<lparr>svc_Name := []\<rparr>) of None \<Rightarrow> True | Some s \<Rightarrow> svc_Name s = []) \<and>
   (\<exists>e. CreateService (Some (example_service\<lparr>svc_Name := []\<rparr>)) example_registry
          = (Failed e, example_registry) \<and> kind e = ValidationError) \<and>
   (case Some (example_api\<lparr>api_Service := []\<rparr>) of None \<Rightarrow> True
    | Some a \<Rightarrow> api_Name a = [] \<or> api_Service a = []) \<and>
   (\<exists>e. CreateAPI (Some (example_api\<lparr>api_Service := []\<rparr>)) example_registry
          = (Failed e, example_registry) \<and> kind e = ValidationError)"
  using create_validation [of "Some (example_service\<lparr>svc_Name := []\<rparr>)" example_registry
      "Some (example_api\<lparr>api_Service := []\<rparr>)"]
  by simp

text \<open>
  C6. \<^verbatim>\<open>CreateService\<close> stores the submitted service as it is, its API mapping
  unchecked; and on a service held with a nil mapping, a \<^verbatim>\<open>CreateAPI\<close> call that
  passes the emptiness checks, finds the service and finds no duplicate does not
  insert: the write at line 103 panics, and the registry is as before.
\<close>

theorem CreateAPI_nil_mapping_panics:
  "(svc_Name s \<noteq> [] \<and> store c (svc_Name s) = None \<longrightarrow>
      fst (CreateService (Some s) c) = Success \<and>
      GetService (svc_Name s) (snd (CreateService (Some s) c)) = Inr s) \<and>
   (api_Name a \<noteq> [] \<and> api_Service a \<noteq> [] \<and>
    GetService (api_Service a) c' = Inr s' \<and> svc_APIs s' = None \<longrightarrow>
      CreateAPI (Some a) c' = (Panicked NilMapAssignment, c'))"
  by (auto simp: CreateService_def CreateAPI_def GetService_def Let_def map_index_def
      map_assign_def split: option.splits)

theorem CreateAPI_nil_mapping_panics_witness:
  "svc_Name (example_service\<lparr>svc_APIs := None\<rparr>) \<noteq> [] \<and>
   store NewCacheDiscovery (svc_Name (example_service\<lparr>svc_APIs := None\<rparr>)) = None \<and>
   fst (CreateService (Some (example_service\<lparr>svc_APIs := None\<rparr>)) NewCacheDiscovery) = Success \<and>
   GetService ''userService''
     (snd (CreateService (Some (example_service\<lparr>svc_APIs := None\<rparr>)) NewCacheDiscovery))
     = Inr (example_service\<lparr>svc_APIs := None\<rparr>) \<and>
   api_Name example_api \<noteq> [] \<and> api_Service example_api \<noteq> [] \<and>
   svc_APIs (example_service\<lparr>svc_APIs := None\<rparr>) = None \<and>
   CreateAPI (Some example_api)
     (snd (CreateService (Some (example_service\<lparr>svc_APIs := None\<rparr>)) NewCacheDiscovery))
   = (Panicked NilMapAssignment,
      snd (CreateService (Some (example_service\<lparr>svc_APIs := None\<rparr>)) NewCacheDiscovery))"
  using CreateAPI_nil_mapping_panics [of "example_service\<lparr>svc_APIs := None\<rparr>" NewCacheDiscovery
      example_api "snd (CreateService (Some (example_service\<lparr>svc_APIs := None\<rparr>)) NewCacheDiscovery)"
      "example_service\<lparr>svc_APIs := None\<rparr>"]
  by (simp add: example_service_def example_api_def NewCacheDiscovery_def)

text \<open>
  C7. After a successful \<^verbatim>\<open>CreateAPI\<close> of the record \<open>a\<close>, \<^verbatim>\<open>GetService\<close> of its
  service followed by a lookup of its name in the service's mapping gives \<open>a\<close> itself,
  every field as submitted; and so it stays, whatever calls \<open>ops\<close> the registry
  receives afterwards.
\<close>

theorem CreateAPI_then_GetService:
  assumes "CreateAPI (Some a) c = (Success, c')"
  shows "\<exists>service. GetService (api_Service a) (run ops c') = Inr service \<and>
           map_index (svc_APIs service) (api_Name a) = Some (Some a)"
proof -
  from CreateAPI_cases [OF assms]
  have "find_api (api_Service a) (api_Name a) c' = Some (Some a)"
    by (auto simp: find_api_def GetService_def map_index_def)
  then have "find_api (api_Service a) (api_Name a) (run ops c') = Some (Some a)"
    by (rule run_keeps_api)
  then show ?thesis
    by (auto simp: find_api_def split: sum.splits)
qed

theorem CreateAPI_then_GetService_witness:
  "CreateAPI (Some example_api) (run [CallCreateService (Some example_service)] NewCacheDiscovery)
     = (Success, example_registry) \<and>
   (\<exists>service.
      GetService (api_Service example_api)
        (run [CallCreateAPI (Some example_api), CallCreateService (Some example_service)]
           example_registry) = Inr service \<and>
      map_index (svc_APIs service) (api_Name example_api) = Some (Some example_api))"
proof -
  have 1: "fst (CreateAPI (Some example_api)
      (run [CallCreateService (Some example_service)] NewCacheDiscovery)) = Success"
    by (simp add: example_service_def example_api_def NewCacheDiscovery_def
        CreateService_def CreateAPI_def map_index_def map_assign_def Let_def)
  have 2: "snd (CreateAPI (Some example_api)
      (run [CallCreateService (Some example_service)] NewCacheDiscovery)) = example_registry"
    by (simp add: example_registry_def)
  have h: "CreateAPI (Some example_api)
      (run [CallCreateService (Some example_service)] NewCacheDiscovery) = (Success, example_registry)"
    using 1 2 by (simp add: prod_eq_iff)
  from h CreateAPI_then_GetService [OF h,
      of "[CallCreateAPI (Some example_api), CallCreateService (Some example_service)]"]
  show ?thesis by simp
qed

section \<open>Resolution of a request\<close>

text \<open>
  C2. For a request whose path is \<^verbatim>\<open>/s/a\<close>, \<open>s\<close> and \<open>a\<close> being its two segments,
  where the registry has a service \<open>s\<close> whose mapping holds an API under \<open>a\<close>, the
  director returns with the outbound URL's scheme, host and path set to the API's
  protocol, its host, and \<^verbatim>\<open>/\<close> followed by its path; the query string, the body
  and the method are as they came.
\<close>

theorem director_rewrites_target:
  assumes "Path (URL req) = ''/'' @ s @ ''/'' @ a"
    and "CHR ''/'' \<notin> set s" and "CHR ''/'' \<notin> set a"
    and "GetService s c = Inr service"
    and "map_index (svc_APIs service) a = Some (Some api)"
  shows "fst (director c req) = Success \<and>
         Scheme (URL (fst (snd (director c req)))) = api_Protocol api \<and>
         Host (URL (fst (snd (director c req)))) = api_Host api \<and>
         Path (URL (fst (snd (director c req)))) = ''/'' @ api_Path api \<and>
         RawQuery (URL (fst (snd (director c req)))) = RawQuery (URL req) \<and>
         Body (fst (snd (director c req))) = Body req \<and>
         Method (fst (snd (director c req))) = Method req"
  using assms director_three [of req "[]" s a c] by simp

theorem director_rewrites_target_witness:
  "Path (URL example_request) = ''/'' @ ''userService'' @ ''/'' @ ''createUser'' \<and>
   CHR ''/'' \<notin> set ''userService'' \<and> CHR ''/'' \<notin> set ''createUser'' \<and>
   GetService ''userService'' example_registry
     = Inr \<lparr>svc_Name = ''userService'',
            svc_APIs = Some (Map.empty(''createUser'' \<mapsto> Some example_api))\<rparr> \<and>
   fst (director example_registry example_request) = Success \<and>
   Scheme (URL (fst (snd (director example_registry example_request)))) = ''http'' \<and>
   Host (URL (fst (snd (director example_registry example_request)))) = ''198.15.26.10:8080'' \<and>
   Path (URL (fst (snd (director example_registry example_request)))) = ''/user/createUser'' \<and>
   RawQuery (URL (fst (snd (director example_registry example_request)))) = ''id=7'' \<and>
   Body (fst (snd (director example_registry example_request))) = ''{}'' \<and>
   Method (fst (snd (director example_registry example_request))) = ''POST''"
proof -
  have 1: "Path (URL example_request) = ''/'' @ ''userService'' @ ''/'' @ ''createUser''"
    by (simp add: example_request_def)
  have 2: "CHR ''/'' \<notin> set ''userService''" and 3: "CHR ''/'' \<notin> set ''createUser''"
    by simp_all
  have 4: "GetService ''userService'' example_registry
     = Inr \<lparr>svc_Name = ''userService'',
            svc_APIs = Some (Map.empty(''createUser'' \<mapsto> Some example_api))\<rparr>"
    by (simp add: GetService_def example_registry_store)
  have 5: "map_index (svc_APIs \<lparr>svc_Name = ''userService'',
            svc_APIs = Some (Map.empty(''createUser'' \<mapsto> Some example_api))\<rparr>) ''createUser''
     = Some (Some example_api)"
    by (simp add: map_index_def)
  from director_rewrites_target [OF 1 2 3 4 5] 1 2 3 4 show ?thesis
    by (simp add: example_api_def example_request_def)
qed

text \<open>
  The three failure returns of the director (lines 158-164, 171-174 and 177-180): it
  returns and the request is as it came, in every field, when the path does not hold
  exactly two separators (the wrong number of segments), when the first segment names
  no registered service, and when the map of the service found has no entry under the
  second segment.
\<close>

lemma director_failure_unmodified:
  assumes "count_list (Path (URL req)) CHR ''/'' \<noteq> 2 \<or>
           (\<exists>x s a. Path (URL req) = x @ ''/'' @ s @ ''/'' @ a \<and>
                  CHR ''/'' \<notin> set x \<and> CHR ''/'' \<notin> set s \<and> CHR ''/'' \<notin> set a \<and>
                  (store c s = None \<or>
                   (\<exists>service. store c s = Some service \<and> map_index (svc_APIs service) a = None)))"
  shows "fst (director c req) = Success \<and> fst (snd (director c req)) = req"
  using assms
proof (elim disjE exE conjE)
  assume "count_list (Path (URL req)) CHR ''/'' \<noteq> 2"
  then show ?thesis by (simp add: director_wrong_count)
next
  fix x s a
  assume "Path (URL req) = x @ ''/'' @ s @ ''/'' @ a"
    "CHR ''/'' \<notin> set x" "CHR ''/'' \<notin> set s" "CHR ''/'' \<notin> set a"
    and "store c s = None"
  then show ?thesis
    using director_three [of req x s a c] by (simp add: GetService_def)
next
  fix x s a service
  assume "Path (URL req) = x @ ''/'' @ s @ ''/'' @ a"
    "CHR ''/'' \<notin> set x" "CHR ''/'' \<notin> set s" "CHR ''/'' \<notin> set a"
    and "store c s = Some service" "map_index (svc_APIs service) a = None"
  then show ?thesis
    using director_three [of req x s a c] by (simp add: GetService_def)
qed

lemma director_failure_unmodified_example:
  "Path (URL unknown_request) = [] @ ''/'' @ ''unknown'' @ ''/'' @ ''foo'' \<and>
   CHR ''/'' \<notin> set [] \<and> CHR ''/'' \<notin> set ''unknown'' \<and> CHR ''/'' \<notin> set ''foo'' \<and>
   store example_registry ''unknown'' = None \<and>
   fst (director example_registry unknown_request) = Success \<and>
   fst (snd (director example_registry unknown_request)) = unknown_request"
proof -
  have 1: "Path (URL unknown_request) = [] @ ''/'' @ ''unknown'' @ ''/'' @ ''foo'' \<and>
      CHR ''/'' \<notin> set [] \<and> CHR ''/'' \<notin> set ''unknown'' \<and> CHR ''/'' \<notin> set ''foo'' \<and>
      store example_registry ''unknown'' = None"
    by (simp add: unknown_request_def example_registry_store)
  then have "count_list (Path (URL unknown_request)) CHR ''/'' \<noteq> 2 \<or>
      (\<exists>x s a. Path (URL unknown_request) = x @ ''/'' @ s @ ''/'' @ a \<and>
         CHR ''/'' \<notin> set x \<and> CHR ''/'' \<notin> set s \<and> CHR ''/'' \<notin> set a \<and>
         (store example_registry s = None \<or>
          (\<exists>service. store example_registry s = Some service \<and>
             map_index (svc_APIs service) a = None)))"
    by blast
  from director_failure_unmodified [OF this] 1 show ?thesis by simp
qed

text \<open>
  C8. When the path resolves to a registered API and the request's method is not the
  API's declared method, the director returns with the same rewrite of scheme, host
  and path as for the declared method; the one difference is a further log line.
\<close>

theorem director_method_mismatch:
  assumes "Path (URL req) = ''/'' @ s @ ''/'' @ a"
    and "CHR ''/'' \<notin> set s" and "CHR ''/'' \<notin> set a"
    and "GetService s c = Inr service"
    and "map_index (svc_APIs service) a = Some (Some api)"
    and "Method req \<noteq> api_HTTPMethod api"
  shows "fst (director c req) = Success \<and>
         URL (fst (snd (director c req))) =
           URL (fst (snd (director c (req\<lparr>Method := api_HTTPMethod api\<rparr>)))) \<and>
         URL (fst (snd (director c req))) =
           (URL req)\<lparr>Scheme := api_Protocol api, Host := api_Host api,
                     Path := ''/'' @ api_Path api\<rparr> \<and>
         Method (fst (snd (director c req))) = Method req \<and>
         Body (fst (snd (director c req))) = Body req \<and>
         snd (snd (director c req)) =
           snd (snd (director c (req\<lparr>Method := api_HTTPMethod api\<rparr>))) @
           [''method: '' @ Method req @ '' unsupported, should be: '' @ api_HTTPMethod api]"
  using assms director_three [of req "[]" s a c]
    director_three [of "req\<lparr>Method := api_HTTPMethod api\<rparr>" "[]" s a c]
  by simp

theorem director_method_mismatch_witness:
  "Path (URL example_request) = ''/'' @ ''userService'' @ ''/'' @ ''createUser'' \<and>
   CHR ''/'' \<notin> set ''userService'' \<and> CHR ''/'' \<notin> set ''createUser'' \<and>
   GetService ''userService'' example_registry
     = Inr \<lparr>svc_Name = ''userService'',
            svc_APIs = Some (Map.empty(''createUser'' \<mapsto> Some example_api))\<rparr> \<and>
   Method example_request \<noteq> api_HTTPMethod example_api \<and>
   fst (director example_registry example_request) = Success \<and>
   URL (fst (snd (director example_registry example_request))) =
     URL (fst (snd (director example_registry
       (example_request\<lparr>Method := api_HTTPMethod example_api\<rparr>)))) \<and>
   URL (fst (snd (director example_registry example_request))) =
     (URL example_request)\<lparr>Scheme := api_Protocol example_api, Host := api_Host example_api,
        Path := ''/'' @ api_Path example_api\<rparr> \<and>
   snd (snd (director example_registry example_request)) =
     snd (snd (director example_registry
       (example_request\<lparr>Method := api_HTTPMethod example_api\<rparr>))) @
     [''method: '' @ Method example_request @ '' unsupported, should be: ''
      @ api_HTTPMethod example_api]"
proof -
  have 1: "Path (URL example_request) = ''/'' @ ''userService'' @ ''/'' @ ''createUser''"
    by (simp add: example_request_def)
  have 2: "CHR ''/'' \<notin> set ''userService''" and 3: "CHR ''/'' \<notin> set ''createUser''"
    by simp_all
  have 4: "GetService ''userService'' example_registry
     = Inr \<lparr>svc_Name = ''userService'',
            svc_APIs = Some (Map.empty(''createUser'' \<mapsto> Some example_api))\<rparr>"
    by (simp add: GetService_def example_registry_store)
  have 5: "map_index (svc_APIs \<lparr>svc_Name = ''userService'',
            svc_APIs = Some (Map.empty(''createUser'' \<mapsto> Some example_api))\<rparr>) ''createUser''
     = Some (Some example_api)"
    by (simp add: map_index_def)
  have 6: "Method example_request \<noteq> api_HTTPMethod example_api"
    by (simp add: example_request_def example_api_def)
  from director_method_mismatch [OF 1 2 3 4 5 6] 1 2 3 4 6 show ?thesis
    by blast
qed

text \<open>When the entry found is a nil pointer, the director panics at line 181.\<close>

lemma director_nil_entry_panics:
  assumes "Path (URL req) = ''/'' @ s @ ''/'' @ a"
    and "CHR ''/'' \<notin> set s" and "CHR ''/'' \<notin> set a"
    and "GetService s c = Inr service"
    and "map_index (svc_APIs service) a = Some None"
  shows "fst (director c req) = Panicked NilDereference \<and> fst (snd (director c req)) = req"
  using assms director_three [of req "[]" s a c] by simp

text \<open>
  C3. On every resolution failure, the third kind being a second segment that names no
  API of the service found, the director is to return with the request as it came. A
  second segment whose entry is a nil pointer names no API, and there the director
  does not return: in the registry that holds \<open>null_entry_service\<close>, the request for
  \<^verbatim>\<open>/s/a\<close> passes the test of line 177 and panics on \<^verbatim>\<open>api.HTTPMethod\<close> at
  line 181. The request is as it came.
\<close>

theorem director_null_entry_panics:
  "fst (CreateService (Some null_entry_service) NewCacheDiscovery) = Success \<and>
   GetService ''s'' null_entry_registry = Inr null_entry_service \<and>
   map_index (svc_APIs null_entry_service) ''a'' = Some None \<and>
   director null_entry_registry null_entry_request =
     (Panicked NilDereference, null_entry_request, [''request service name: s, api name: a''])"
proof -
  have c: "fst (CreateService (Some null_entry_service) NewCacheDiscovery) = Success"
    by (simp add: CreateService_def null_entry_service_def NewCacheDiscovery_def)
  have g: "GetService ''s'' null_entry_registry = Inr null_entry_service"
    by (simp add: GetService_def null_entry_registry_def null_entry_service_def
        CreateService_def NewCacheDiscovery_def)
  have m: "map_index (svc_APIs null_entry_service) ''a'' = Some None"
    by (simp add: map_index_def null_entry_service_def)
  have p: "Path (URL null_entry_request) = [] @ ''/'' @ ''s'' @ ''/'' @ ''a''"
    by (simp add: null_entry_request_def)
  from director_three [of null_entry_request "[]" "''s''" "''a''" null_entry_registry, OF p] g m
  have "director null_entry_registry null_entry_request =
     (Panicked NilDereference, null_entry_request, [''request service name: s, api name: a''])"
    by simp
  with c g m show ?thesis by simp
qed

text \<open>
  C5, as amended. The director takes a path as well formed exactly when it holds
  exactly two separators, so that it splits into three pieces, and the piece between
  the separators, the service name, is not empty; what stands before the first
  separator is ignored, and the API segment may be empty. In full: a path with
  another number of separators is a resolution failure in every registry, the request
  unmodified and nothing logged; a path with two separators is \<open>x/s/a\<close>; with an
  empty \<open>s\<close> it is a resolution failure in every registry reachable through the create
  calls; and with a non-empty \<open>s\<close> there is a reachable registry in which the director
  rewrites the request, also when \<open>a\<close> is empty.
\<close>

theorem director_path_shape:
  "(count_list (Path (URL req)) CHR ''/'' \<noteq> 2 \<longrightarrow> director c req = (Success, req, [])) \<and>
   (count_list (Path (URL req)) CHR ''/'' = 2 \<longrightarrow>
      (\<exists>x s a. Path (URL req) = x @ ''/'' @ s @ ''/'' @ a \<and>
         CHR ''/'' \<notin> set x \<and> CHR ''/'' \<notin> set s \<and> CHR ''/'' \<notin> set a)) \<and>
   (Path (URL req) = x @ ''//'' @ a \<and> CHR ''/'' \<notin> set x \<and> CHR ''/'' \<notin> set a \<longrightarrow>
      fst (director (run ops NewCacheDiscovery) req) = Success \<and>
      fst (snd (director (run ops NewCacheDiscovery) req)) = req) \<and>
   (Path (URL req) = x @ ''/'' @ s @ ''/'' @ a \<and>
    CHR ''/'' \<notin> set x \<and> CHR ''/'' \<notin> set s \<and> CHR ''/'' \<notin> set a \<and> s \<noteq> [] \<longrightarrow>
      fst (director
             (run [CallCreateService
                     (Some \<lparr>svc_Name = s, svc_APIs = Some (Map.empty(a \<mapsto> Some api))\<rparr>)]
                NewCacheDiscovery) req) = Success \<and>
      URL (fst (snd (director
             (run [CallCreateService
                     (Some \<lparr>svc_Name = s, svc_APIs = Some (Map.empty(a \<mapsto> Some api))\<rparr>)]
                NewCacheDiscovery) req))) =
        (URL req)\<lparr>Scheme := api_Protocol api, Host := api_Host api,
                  Path := ''/'' @ api_Path api\<rparr>)"
proof (intro conjI impI)
  assume "count_list (Path (URL req)) CHR ''/'' \<noteq> 2"
  then show "director c req = (Success, req, [])"
    by (rule director_wrong_count)
next
  assume "count_list (Path (URL req)) CHR ''/'' = 2"
  from count_list_two [OF this]
  show "\<exists>x s a. Path (URL req) = x @ ''/'' @ s @ ''/'' @ a \<and>
         CHR ''/'' \<notin> set x \<and> CHR ''/'' \<notin> set s \<and> CHR ''/'' \<notin> set a"
    by simp
next
  assume h: "Path (URL req) = x @ ''//'' @ a \<and> CHR ''/'' \<notin> set x \<and> CHR ''/'' \<notin> set a"
  have "store (run ops NewCacheDiscovery) [] = None"
    using reachable_own_name [of ops "[]"] by (cases "store (run ops NewCacheDiscovery) []") auto
  with h director_three [of req x "[]" a "run ops NewCacheDiscovery"]
  have "director (run ops NewCacheDiscovery) req =
      (Success, req,
       [''request service name: '' @ [] @ '', api name: '' @ a,
        ''use discovery to get service failed: '' @ Error (ServiceNotExist []) @ [CHR 0x0A]])"
    by (simp add: GetService_def)
  then show "fst (director (run ops NewCacheDiscovery) req) = Success"
    and "fst (snd (director (run ops NewCacheDiscovery) req)) = req"
    by simp_all
next
  let ?sv = "\<lparr>svc_Name = s, svc_APIs = Some (Map.empty(a \<mapsto> Some api))\<rparr>"
  let ?c = "run [CallCreateService (Some ?sv)] NewCacheDiscovery"
  assume h: "Path (URL req) = x @ ''/'' @ s @ ''/'' @ a \<and>
    CHR ''/'' \<notin> set x \<and> CHR ''/'' \<notin> set s \<and> CHR ''/'' \<notin> set a \<and> s \<noteq> []"
  then have "GetService s ?c = Inr ?sv"
    by (simp add: GetService_def CreateService_def NewCacheDiscovery_def)
  with h director_three [of req x s a ?c]
  have d: "director ?c req =
      (Success,
       req\<lparr>URL := (URL req)\<lparr>Scheme := api_Protocol api, Host := api_Host api,
                             Path := ''/'' @ api_Path api\<rparr>\<rparr>,
       [''request service name: '' @ s @ '', api name: '' @ a] @
       (if Method req \<noteq> api_HTTPMethod api
        then [''method: '' @ Method req @ '' unsupported, should be: '' @ api_HTTPMethod api]
        else []))"
    by (simp add: map_index_def)
  show "fst (director ?c req) = Success"
    unfolding d by simp
  show "URL (fst (snd (director ?c req))) =
      (URL req)\<lparr>Scheme := api_Protocol api, Host := api_Host api, Path := ''/'' @ api_Path api\<rparr>"
    unfolding d by simp
qed

theorem director_path_shape_witness:
  "count_list (Path (URL (unknown_request\<lparr>URL := (URL unknown_request)\<lparr>Path := ''/a/b/c''\<rparr>\<rparr>)))
     CHR ''/'' \<noteq> 2 \<and>
   director example_registry (unknown_request\<lparr>URL := (URL unknown_request)\<lparr>Path := ''/a/b/c''\<rparr>\<rparr>)
     = (Success, unknown_request\<lparr>URL := (URL unknown_request)\<lparr>Path := ''/a/b/c''\<rparr>\<rparr>, []) \<and>
   count_list (Path (URL unknown_request)) CHR ''/'' = 2 \<and>
   (\<exists>x s a. Path (URL unknown_request) = x @ ''/'' @ s @ ''/'' @ a \<and>
      CHR ''/'' \<notin> set x \<and> CHR ''/'' \<notin> set s \<and> CHR ''/'' \<notin> set a) \<and>
   Path (URL (unknown_request\<lparr>URL := (URL unknown_request)\<lparr>Path := ''//foo''\<rparr>\<rparr>))
     = [] @ ''//'' @ ''foo'' \<and>
   CHR ''/'' \<notin> set [] \<and> CHR ''/'' \<notin> set ''foo'' \<and>
   fst (director
          (run [CallCreateService (Some example_service), CallCreateAPI (Some example_api)]
             NewCacheDiscovery)
          (unknown_request\<lparr>URL := (URL unknown_request)\<lparr>Path := ''//foo''\<rparr>\<rparr>)) = Success \<and>
   fst (snd (director
          (run [CallCreateService (Some example_service), CallCreateAPI (Some example_api)]
             NewCacheDiscovery)
          (unknown_request\<lparr>URL := (URL unknown_request)\<lparr>Path := ''//foo''\<rparr>\<rparr>)))
     = unknown_request\<lparr>URL := (URL unknown_request)\<lparr>Path := ''//foo''\<rparr>\<rparr> \<and>
   Path (URL nameless_request) = [] @ ''/'' @ ''s'' @ ''/'' @ [] \<and>
   CHR ''/'' \<notin> set ''s'' \<and> ''s'' \<noteq> [] \<and>
   fst (director
          (run [CallCreateService
                  (Some \<lparr>svc_Name = ''s'', svc_APIs = Some (Map.empty([] \<mapsto> Some nameless_api))\<rparr>)]
             NewCacheDiscovery) nameless_request) = Success \<and>
   URL (fst (snd (director
          (run [CallCreateService
                  (Some \<lparr>svc_Name = ''s'', svc_APIs = Some (Map.empty([] \<mapsto> Some nameless_api))\<rparr>)]
             NewCacheDiscovery) nameless_request))) =
     (URL nameless_request)\<lparr>Scheme := api_Protocol nameless_api, Host := api_Host nameless_api,
        Path := ''/'' @ api_Path nameless_api\<rparr>"
proof -
  let ?r1 = "unknown_request\<lparr>URL := (URL unknown_request)\<lparr>Path := ''/a/b/c''\<rparr>\<rparr>"
  let ?r3 = "unknown_request\<lparr>URL := (URL unknown_request)\<lparr>Path := ''//foo''\<rparr>\<rparr>"
  have 1: "count_list (Path (URL ?r1)) CHR ''/'' \<noteq> 2"
    by (simp add: unknown_request_def)
  have 2: "count_list (Path (URL unknown_request)) CHR ''/'' = 2"
    by (simp add: unknown_request_def)
  have 3: "Path (URL ?r3) = [] @ ''//'' @ ''foo'' \<and> CHR ''/'' \<notin> set [] \<and> CHR ''/'' \<notin> set ''foo''"
    by simp
  have 4: "Path (URL nameless_request) = [] @ ''/'' @ ''s'' @ ''/'' @ [] \<and>
      CHR ''/'' \<notin> set [] \<and> CHR ''/'' \<notin> set ''s'' \<and> CHR ''/'' \<notin> set [] \<and> ''s'' \<noteq> []"
    by (simp add: nameless_request_def)
  note a = director_path_shape [of ?r1 example_registry, THEN conjunct1, rule_format, OF 1]
  note b = director_path_shape [of unknown_request, THEN conjunct2, THEN conjunct1,
      rule_format, OF 2]
  note c = director_path_shape [of ?r3 _ "[]" "''foo''"
      "[CallCreateService (Some example_service), CallCreateAPI (Some example_api)]",
      THEN conjunct2, THEN conjunct2, THEN conjunct1, rule_format, OF 3]
  note d = director_path_shape [of nameless_request _ "[]" "[]" _ "''s''" nameless_api,
      THEN conjunct2, THEN conjunct2, THEN conjunct2, rule_format, OF 4]
  from 1 2 3 4 a b c d show ?thesis by blast
qed

text \<open>
  The claim as it is written asks for two non-empty segments after a leading separator
  and makes every other path a resolution failure. In the registry that holds
  \<open>nameless_service\<close>, the path \<^verbatim>\<open>/s/\<close>, whose second segment is empty, is resolved and
  the request rewritten.
\<close>

theorem director_empty_segment_counterexample:
  "Path (URL nameless_request) = ''/s/'' \<and>
   fst (director nameless_registry nameless_request) = Success \<and>
   URL (fst (snd (director nameless_registry nameless_request))) =
     \<lparr>Scheme = ''http'', Host = ''h'', Path = ''/p'', RawQuery = []\<rparr> \<and>
   fst (snd (director nameless_registry nameless_request)) \<noteq> nameless_request"
proof -
  have p: "Path (URL nameless_request) = [] @ ''/'' @ ''s'' @ ''/'' @ []"
    by (simp add: nameless_request_def)
  have g: "GetService ''s'' nameless_registry = Inr nameless_service"
    by (simp add: GetService_def nameless_registry_store)
  have m: "map_index (svc_APIs nameless_service) [] = Some (Some nameless_api)"
    by (simp add: map_index_def nameless_service_def)
  from director_three [of nameless_request "[]" "''s''" "[]" nameless_registry, OF p] g m
  show ?thesis
    by (simp add: nameless_request_def nameless_api_def)
qed

section \<open>Uniqueness of names\<close>

lemma reachable_no_empty_name: "store (run ops NewCacheDiscovery) [] = None"
  using reachable_own_name [of ops "[]"] by (cases "store (run ops NewCacheDiscovery) []") auto

text \<open>
  C4, as amended. In every registry reachable through the create calls, every service
  is held under its own name, so no two services have the same name. The APIs of a
  service are held by name in its mapping: \<^verbatim>\<open>CreateAPI\<close> succeeds only where the
  service has no entry of the API's name, files the API under that name, and no later
  call replaces an entry. A \<^verbatim>\<open>CreateService\<close> call with a registered name, and a
  \<^verbatim>\<open>CreateAPI\<close> call with a non-empty API name and a registered pair of service and
  name, each return a conflict error and leave the registry as it was.
\<close>

theorem registry_names_unique:
  "(store (run ops NewCacheDiscovery) n = Some s \<longrightarrow> svc_Name s = n) \<and>
   (store (run ops NewCacheDiscovery) n1 = Some s1 \<and>
    store (run ops NewCacheDiscovery) n2 = Some s2 \<and> svc_Name s1 = svc_Name s2 \<longrightarrow> n1 = n2) \<and>
   (CreateAPI (Some a) c = (Success, c') \<longrightarrow>
      find_api (api_Service a) (api_Name a) c = None \<and>
      find_api (api_Service a) (api_Name a) c' = Some (Some a)) \<and>
   (find_api n k c = Some v \<longrightarrow> find_api n k (run later c) = Some v) \<and>
   (store (run ops NewCacheDiscovery) (svc_Name s') \<noteq> None \<longrightarrow>
      (\<exists>e. CreateService (Some s') (run ops NewCacheDiscovery)
              = (Failed e, run ops NewCacheDiscovery) \<and> kind e = ConflictError)) \<and>
   (api_Name a' \<noteq> [] \<and>
    find_api (api_Service a') (api_Name a') (run ops NewCacheDiscovery) \<noteq> None \<longrightarrow>
      (\<exists>e. CreateAPI (Some a') (run ops NewCacheDiscovery)
              = (Failed e, run ops NewCacheDiscovery) \<and> kind e = ConflictError))"
proof (intro conjI impI)
  assume "store (run ops NewCacheDiscovery) n = Some s"
  then show "svc_Name s = n"
    using reachable_own_name by blast
next
  assume "store (run ops NewCacheDiscovery) n1 = Some s1 \<and>
    store (run ops NewCacheDiscovery) n2 = Some s2 \<and> svc_Name s1 = svc_Name s2"
  then show "n1 = n2"
    using reachable_own_name [of ops n1 s1] reachable_own_name [of ops n2 s2] by simp
next
  assume h: "CreateAPI (Some a) c = (Success, c')"
  from CreateAPI_cases [OF h]
  show "find_api (api_Service a) (api_Name a) c = None"
    by (auto simp: find_api_def GetService_def map_index_def)
  from CreateAPI_cases [OF h]
  show "find_api (api_Service a) (api_Name a) c' = Some (Some a)"
    by (auto simp: find_api_def GetService_def map_index_def)
next
  assume "find_api n k c = Some v"
  then show "find_api n k (run later c) = Some v"
    by (rule run_keeps_api)
next
  let ?R = "run ops NewCacheDiscovery"
  assume h: "store ?R (svc_Name s') \<noteq> None"
  with reachable_no_empty_name [of ops] have "svc_Name s' \<noteq> []"
    by auto
  with h have "CreateService (Some s') ?R = (Failed (ServiceAlreadyExist (svc_Name s')), ?R)"
    by (simp add: CreateService_def)
  then show "\<exists>e. CreateService (Some s') ?R = (Failed e, ?R) \<and> kind e = ConflictError"
    by simp
next
  let ?R = "run ops NewCacheDiscovery"
  assume h: "api_Name a' \<noteq> [] \<and> find_api (api_Service a') (api_Name a') ?R \<noteq> None"
  then obtain sv where sv: "store ?R (api_Service a') = Some sv"
    and m: "map_index (svc_APIs sv) (api_Name a') \<noteq> None"
    by (auto simp: find_api_def GetService_def split: option.splits)
  from sv reachable_no_empty_name [of ops] have "api_Service a' \<noteq> []"
    by auto
  with h sv m
  have "CreateAPI (Some a') ?R = (Failed (ApiAlreadyExist (api_Service a') (api_Name a')), ?R)"
    by (simp add: CreateAPI_def)
  then show "\<exists>e. CreateAPI (Some a') ?R = (Failed e, ?R) \<and> kind e = ConflictError"
    by simp
qed

theorem registry_names_unique_witness:
  "store example_registry ''userService''
     = Some \<lparr>svc_Name = ''userService'',
             svc_APIs = Some (Map.empty(''createUser'' \<mapsto> Some example_api))\<rparr> \<and>
   svc_Name \<lparr>svc_Name = ''userService'',
             svc_APIs = Some (Map.empty(''createUser'' \<mapsto> Some example_api))\<rparr> = ''userService'' \<and>
   CreateAPI (Some example_api) (run [CallCreateService (Some example_service)] NewCacheDiscovery)
     = (Success, example_registry) \<and>
   find_api (api_Service example_api) (api_Name example_api)
     (run [CallCreateService (Some example_service)] NewCacheDiscovery) = None \<and>
   find_api (api_Service example_api) (api_Name example_api) example_registry
     = Some (Some example_api) \<and>
   find_api (api_Service example_api) (api_Name example_api)
     (run [CallCreateAPI (Some (example_api\<lparr>api_Host := ''other''\<rparr>))] example_registry)
     = Some (Some example_api) \<and>
   store example_registry (svc_Name example_service) \<noteq> None \<and>
   (\<exists>e. CreateService (Some example_service) example_registry = (Failed e, example_registry) \<and>
        kind e = ConflictError) \<and>
   api_Name (example_api\<lparr>api_Host := ''other''\<rparr>) \<noteq> [] \<and>
   (\<exists>e. CreateAPI (Some (example_api\<lparr>api_Host := ''other''\<rparr>)) example_registry
          = (Failed e, example_registry) \<and> kind e = ConflictError)"
proof -
  let ?ops = "[CallCreateService (Some example_service), CallCreateAPI (Some example_api)]"
  let ?sv = "\<lparr>svc_Name = ''userService'',
             svc_APIs = Some (Map.empty(''createUser'' \<mapsto> Some example_api))\<rparr>"
  let ?c1 = "run [CallCreateService (Some example_service)] NewCacheDiscovery"
  let ?b = "example_api\<lparr>api_Host := ''other''\<rparr>"
  have R: "run ?ops NewCacheDiscovery = example_registry"
    by (simp add: example_registry_def)
  have 1: "store (run ?ops NewCacheDiscovery) ''userService'' = Some ?sv"
    unfolding R by (simp add: example_registry_store)
  have 31: "fst (CreateAPI (Some example_api) ?c1) = Success"
    by (simp add: example_service_def example_api_def NewCacheDiscovery_def
        CreateService_def CreateAPI_def map_index_def map_assign_def Let_def)
  have 32: "snd (CreateAPI (Some example_api) ?c1) = example_registry"
    by (simp add: example_registry_def)
  have 3: "CreateAPI (Some example_api) ?c1 = (Success, example_registry)"
    using 31 32 by (simp add: prod_eq_iff)
  have 5: "store (run ?ops NewCacheDiscovery) (svc_Name example_service) \<noteq> None"
    unfolding R by (simp add: example_registry_store example_service_def)
  have f: "find_api (api_Service example_api) (api_Name example_api) example_registry
      = Some (Some example_api)"
    by (simp add: find_api_def GetService_def map_index_def example_registry_store
        example_api_def)
  have 6: "api_Name ?b \<noteq> [] \<and>
      find_api (api_Service ?b) (api_Name ?b) (run ?ops NewCacheDiscovery) \<noteq> None"
    unfolding R using f by (simp add: example_api_def)
  note a = registry_names_unique [where ops = ?ops and n = "''userService''" and s = ?sv,
      THEN conjunct1, rule_format, OF 1]
  note b = registry_names_unique [where a = example_api and c = ?c1 and c' = example_registry,
      THEN conjunct2, THEN conjunct2, THEN conjunct1, rule_format, OF 3]
  note c = registry_names_unique [where c = example_registry
      and n = "api_Service example_api" and k = "api_Name example_api"
      and v = "Some example_api" and later = "[CallCreateAPI (Some ?b)]",
      THEN conjunct2, THEN conjunct2, THEN conjunct2, THEN conjunct1, rule_format, OF f]
  note d = registry_names_unique [where ops = ?ops and s' = example_service,
      THEN conjunct2, THEN conjunct2, THEN conjunct2, THEN conjunct2, THEN conjunct1,
      rule_format, OF 5]
  note e = registry_names_unique [where ops = ?ops and a' = ?b,
      THEN conjunct2, THEN conjunct2, THEN conjunct2, THEN conjunct2, THEN conjunct2,
      rule_format, OF 6]
  from 1 3 5 6 a b c d e show ?thesis
    unfolding R by simp
qed

text \<open>
  The claim as it is written makes every \<^verbatim>\<open>CreateAPI\<close> call with a registered pair of
  service and name fail with a conflict error. In the registry that holds
  \<open>nameless_service\<close> the pair of \<^verbatim>\<open>s\<close> and the empty name is registered, and
  \<^verbatim>\<open>CreateAPI\<close> for that pair returns the validation error of line 85.
\<close>

theorem CreateAPI_registered_pair_counterexample:
  "find_api (api_Service nameless_api) (api_Name nameless_api) nameless_registry
     = Some (Some nameless_api) \<and>
   CreateAPI (Some nameless_api) nameless_registry = (Failed ApiEmpty, nameless_registry) \<and>
   kind ApiEmpty \<noteq> ConflictError"
  by (simp add: find_api_def GetService_def map_index_def nameless_registry_store
      nameless_service_def nameless_api_def CreateAPI_def)

end
